theory Spec2Isabelle
  imports Main
begin

section \<open>Data model\<close>

text \<open>
  The interface \<open>CommandInfo\<close> of \<open>CommandAutocomplete.tsx\<close>. Every field but
  \<open>name\<close> is optional in the source, so it is an option here: \<open>None\<close> is the
  field left \<open>undefined\<close>.
\<close>

record CommandInfo =
  name :: string
  description :: "string option"
  agent :: "string option"
  model :: "string option"
  isBuiltIn :: "bool option"

text \<open>
  The part of the session store (\<open>useSessionStore\<close>) that the command engine reads:
  the active session id, the messages of each session (a \<open>Map\<close> from session id to an
  array), the session list with the optional pending revert, the optional \<open>Map\<close> of
  activity phases, and the command history. A message is read only through
  \<open>info.role\<close>, a session only through \<open>id\<close> and \<open>revert?.messageID\<close>.
\<close>

record MessageInfo =
  role :: string

record Message =
  info :: MessageInfo

record RevertInfo =
  messageID :: string

record Session =
  session_id :: string
  revert :: "RevertInfo option"

record HistoryEntry =
  command :: string
  timestamp :: int
  success :: bool

record SessionStore =
  currentSessionId :: "string option"
  messages :: "string \<rightharpoonup> Message list"
  sessions :: "Session list"
  sessionActivityPhase :: "(string \<rightharpoonup> string) option"
  commandHistory :: "HistoryEntry list"

text \<open>What a rejected promise or a \<open>throw\<close> carries.\<close>

datatype js_error = Error string | TypeError | SyntaxError

section \<open>Availability: \<open>isCommandAvailable\<close>\<close>

text \<open>
  The selector of the component (lines 32 to 41). A session id is used only when it is
  truthy: \<open>null\<close> and the empty string both count as no session.
\<close>

definition hasMessagesInCurrentSession :: "SessionStore \<Rightarrow> bool" where
  "hasMessagesInCurrentSession state =
    (let messageCount =
       (case currentSessionId state of
          None \<Rightarrow> 0
        | Some sessionId \<Rightarrow>
            if sessionId = [] then 0
            else (case messages state sessionId of None \<Rightarrow> 0 | Some ms \<Rightarrow> length ms))
     in messageCount > 0)"

text \<open>The two reads at the head of \<open>isCommandAvailable\<close> (lines 50 and 51).\<close>

definition sessionMessages :: "string option \<Rightarrow> SessionStore \<Rightarrow> Message list" where
  "sessionMessages sid st =
    (case sid of
       None \<Rightarrow> []
     | Some i \<Rightarrow> if i = [] then [] else (case messages st i of None \<Rightarrow> [] | Some ms \<Rightarrow> ms))"

definition session :: "string option \<Rightarrow> SessionStore \<Rightarrow> Session option" where
  "session sid st =
    (case sid of
       None \<Rightarrow> None
     | Some i \<Rightarrow> if i = [] then None else find (\<lambda>s. session_id s = i) (sessions st))"

text \<open>
  \<open>isCommandAvailable\<close> closes over the two values the selector gave at render time
  (\<open>hasMessagesInCurrentSession\<close>, \<open>currentSessionId\<close>) and reads the store again when
  it is called; the model takes all three. The \<open>switch\<close> on the name is the chain of
  tests below, in the order of the source.
\<close>

definition isCommandAvailable ::
  "bool \<Rightarrow> string option \<Rightarrow> SessionStore \<Rightarrow> CommandInfo \<Rightarrow> bool" where
  "isCommandAvailable hasMessages sid st cmd =
    (if isBuiltIn cmd \<noteq> Some True then True
     else if name cmd = ''init'' then \<not> hasMessages
     else if name cmd = ''summarize'' then hasMessages
     else if name cmd = ''revert'' \<or> name cmd = ''undo'' then
       length (sessionMessages sid st) > 1
     else if name cmd = ''unrevert'' \<or> name cmd = ''redo'' then
       (case session sid st of
          None \<Rightarrow> False
        | Some s \<Rightarrow> (case revert s of None \<Rightarrow> False | Some r \<Rightarrow> messageID r \<noteq> []))
     else if name cmd = ''abort'' then
       (case sessionActivityPhase st of
          None \<Rightarrow> False
        | Some phases \<Rightarrow>
            phases (case sid of None \<Rightarrow> [] | Some i \<Rightarrow> i) = Some ''busy'')
     else if name cmd = ''edit'' then
       length (sessionMessages sid st) > 0 \<and>
       role (info (last (sessionMessages sid st))) = ''user''
     else if name cmd = ''clear'' \<or> name cmd = ''compact'' then
       length (sessionMessages sid st) > 0
     else True)"

text \<open>The evaluator as the component uses it: closure and store from one store state.\<close>

definition available :: "SessionStore \<Rightarrow> CommandInfo \<Rightarrow> bool" where
  "available st cmd =
    isCommandAvailable (hasMessagesInCurrentSession st) (currentSessionId st) st cmd"

subsection \<open>The specification's reading of availability\<close>

text \<open>
  The session-state snapshot of the specification, and the table of section 4.1 written
  over it. \<open>snapshot_of\<close> says which reads of the store each field of the snapshot stands
  for in the source.
\<close>

datatype Role = RoleNone | RoleUser | RoleAssistant

datatype Phase = Idle | Busy

record Snapshot =
  messageCount :: nat
  lastMessageRole :: Role
  hasPendingRevert :: bool
  activityPhase :: Phase

definition snapshot_of :: "SessionStore \<Rightarrow> Snapshot" where
  "snapshot_of st =
    (let ms = sessionMessages (currentSessionId st) st in
     \<lparr>messageCount = length ms,
      lastMessageRole =
        (if ms = [] then RoleNone
         else if role (info (last ms)) = ''user'' then RoleUser else RoleAssistant),
      hasPendingRevert =
        (case session (currentSessionId st) st of
           None \<Rightarrow> False
         | Some s \<Rightarrow> (case revert s of None \<Rightarrow> False | Some r \<Rightarrow> messageID r \<noteq> [])),
      activityPhase =
        (case sessionActivityPhase st of
           None \<Rightarrow> Idle
         | Some phases \<Rightarrow>
             if phases (case currentSessionId st of None \<Rightarrow> [] | Some i \<Rightarrow> i) = Some ''busy''
             then Busy else Idle)\<rparr>)"

definition spec_isAvailable :: "CommandInfo \<Rightarrow> Snapshot \<Rightarrow> bool" where
  "spec_isAvailable cmd snap =
    (if isBuiltIn cmd \<noteq> Some True then True
     else if name cmd = ''init'' then messageCount snap = 0
     else if name cmd = ''summarize'' then messageCount snap > 0
     else if name cmd \<in> {''revert'', ''undo''} then messageCount snap > 1
     else if name cmd \<in> {''unrevert'', ''redo''} then hasPendingRevert snap
     else if name cmd = ''abort'' then activityPhase snap = Busy
     else if name cmd = ''edit'' then messageCount snap > 0 \<and> lastMessageRole snap = RoleUser
     else if name cmd \<in> {''clear'', ''compact''} then messageCount snap > 0
     else True)"

section \<open>Catalog merge, filter and sort: \<open>loadCommands\<close>\<close>

subsection \<open>Strings\<close>

text \<open>
  Strings are lists of 8-bit characters here; \<open>toLowerCase\<close> is modelled on ASCII,
  which covers the built-in names and descriptions.
\<close>

definition toLowerChar :: "char \<Rightarrow> char" where
  "toLowerChar c =
    (let n = (of_char c :: nat) in if 65 \<le> n \<and> n \<le> 90 then char_of (n + 32) else c)"

definition toLowerCase :: "string \<Rightarrow> string" where
  "toLowerCase s = map toLowerChar s"

fun startsWith :: "string \<Rightarrow> string \<Rightarrow> bool" where
  "startsWith s [] = True"
| "startsWith [] (q # qs) = False"
| "startsWith (c # cs) (q # qs) = (c = q \<and> startsWith cs qs)"

fun str_includes :: "string \<Rightarrow> string \<Rightarrow> bool" where
  "str_includes [] q = (q = [])"
| "str_includes (c # cs) q = (startsWith (c # cs) q \<or> str_includes cs q)"

fun str_less :: "string \<Rightarrow> string \<Rightarrow> bool" where
  "str_less [] [] = False"
| "str_less [] (y # ys) = True"
| "str_less (x # xs) [] = False"
| "str_less (x # xs) (y # ys) =
     ((of_char x :: nat) < of_char y \<or> (x = y \<and> str_less xs ys))"

text \<open>
  Modelled from the spec: \<open>String.prototype.localeCompare\<close> is the collation of the
  JavaScript engine, which is not part of the repository. The specification reads the
  comparison as the lexicographic order of the names; the model compares character codes,
  which is that order on names of lowercase ASCII letters such as the built-in ones.
\<close>

definition localeCompare :: "string \<Rightarrow> string \<Rightarrow> int" where
  "localeCompare a b = (if a = b then 0 else if str_less a b then - 1 else 1)"

subsection \<open>Arrays and the insertion-ordered \<open>Map\<close>\<close>

text \<open>
  \<open>Array.prototype.sort\<close> with a comparator is stable; the model is the stable insertion
  sort: an element moves in front of the first later element it does not compare greater
  than.
\<close>

fun insert_sorted :: "('a \<Rightarrow> 'a \<Rightarrow> int) \<Rightarrow> 'a \<Rightarrow> 'a list \<Rightarrow> 'a list" where
  "insert_sorted cmp x [] = [x]"
| "insert_sorted cmp x (y # ys) =
     (if cmp x y \<le> 0 then x # y # ys else y # insert_sorted cmp x ys)"

definition array_sort :: "('a \<Rightarrow> 'a \<Rightarrow> int) \<Rightarrow> 'a list \<Rightarrow> 'a list" where
  "array_sort cmp xs = foldr (insert_sorted cmp) xs []"

text \<open>
  A JavaScript \<open>Map\<close> keeps its keys in insertion order, and \<open>set\<close> on a key already
  present replaces the value where the key stands. It is an association list here.
\<close>

fun map_set :: "'k \<Rightarrow> 'v \<Rightarrow> ('k \<times> 'v) list \<Rightarrow> ('k \<times> 'v) list" where
  "map_set k v [] = [(k, v)]"
| "map_set k v (p # ps) = (if fst p = k then (k, v) # ps else p # map_set k v ps)"

definition map_values :: "('k \<times> 'v) list \<Rightarrow> 'v list" where
  "map_values m = map snd m"

subsection \<open>The catalogs\<close>

text \<open>What \<open>opencodeClient.listCommands()\<close> returns, as far as the component reads it.\<close>

record ApiCommand =
  cmd_name :: string
  cmd_description :: "string option"
  cmd_agent :: "string option"
  cmd_model :: "string option"

text \<open>The arrow function of \<open>apiCommands.map\<close> (lines 110 to 116), and the mapped list.\<close>

definition toCustom :: "ApiCommand \<Rightarrow> CommandInfo" where
  "toCustom cmd = \<lparr>name = cmd_name cmd, description = cmd_description cmd,
                 agent = cmd_agent cmd, model = cmd_model cmd, isBuiltIn = Some False\<rparr>"

definition customCommands :: "ApiCommand list \<Rightarrow> CommandInfo list" where
  "customCommands apiCommands = map toCustom apiCommands"

definition builtIn :: "string \<Rightarrow> string \<Rightarrow> CommandInfo" where
  "builtIn n d = \<lparr>name = n, description = Some d, agent = None, model = None, isBuiltIn = Some True\<rparr>"

definition builtInCommands :: "bool \<Rightarrow> CommandInfo list" where
  "builtInCommands hasMessages =
    (if hasMessages then [] else [builtIn ''init'' ''Create/update AGENTS.md file'']) @
    [builtIn ''summarize'' ''Generate a summary of the current session'',
     builtIn ''revert'' ''Revert session to previous state'',
     builtIn ''unrevert'' ''Undo revert operation'',
     builtIn ''abort'' ''Interrupt current operation'',
     builtIn ''undo'' ''Undo last action'',
     builtIn ''redo'' ''Redo last action'',
     builtIn ''edit'' ''Edit last message'',
     builtIn ''clear'' ''Clear current session'',
     builtIn ''compact'' ''Compact session history'']"

text \<open>Lines 133 to 139: built-in commands enter the map first, dynamic ones overwrite.\<close>

definition commandMap :: "CommandInfo list \<Rightarrow> CommandInfo list \<Rightarrow> (string \<times> CommandInfo) list" where
  "commandMap builtIns customs =
    foldl (\<lambda>m cmd. map_set (name cmd) cmd m)
      (foldl (\<lambda>m cmd. map_set (name cmd) cmd m) [] builtIns) customs"

definition allCommands :: "CommandInfo list \<Rightarrow> CommandInfo list \<Rightarrow> CommandInfo list" where
  "allCommands builtIns customs = map_values (commandMap builtIns customs)"

text \<open>The invariant of the map while it is filled: every command is stored under its name.\<close>

definition named :: "(string \<times> CommandInfo) list \<Rightarrow> bool" where
  "named m = (\<forall>p \<in> set m. name (snd p) = fst p)"

subsection \<open>Filter, gate and sort\<close>

definition matchesQuery :: "string \<Rightarrow> CommandInfo \<Rightarrow> bool" where
  "matchesQuery searchQuery cmd =
    (str_includes (toLowerCase (name cmd)) (toLowerCase searchQuery) \<or>
     (case description cmd of
        None \<Rightarrow> False
      | Some d \<Rightarrow> d \<noteq> [] \<and> str_includes (toLowerCase d) (toLowerCase searchQuery)))"

definition filtered ::
  "string \<Rightarrow> bool \<Rightarrow> (CommandInfo \<Rightarrow> bool) \<Rightarrow> CommandInfo list \<Rightarrow> CommandInfo list" where
  "filtered searchQuery hasMessages isAvailable cmds =
    (let allowInitCommand = \<not> hasMessages in
     filter isAvailable
       (filter (\<lambda>cmd. allowInitCommand \<or> name cmd \<noteq> ''init'')
         (if searchQuery \<noteq> [] then filter (matchesQuery searchQuery) cmds else cmds)))"

definition compareCommands :: "string \<Rightarrow> CommandInfo \<Rightarrow> CommandInfo \<Rightarrow> int" where
  "compareCommands searchQuery a b =
    (let aStartsWith = startsWith (toLowerCase (name a)) (toLowerCase searchQuery);
         bStartsWith = startsWith (toLowerCase (name b)) (toLowerCase searchQuery)
     in if aStartsWith \<and> \<not> bStartsWith then - 1
        else if \<not> aStartsWith \<and> bStartsWith then 1
        else localeCompare (name a) (name b))"

text \<open>
  The order the specification asks of the visible list, in its own words: a command whose
  name starts with the query comes before one whose name does not, and within each group
  the names are in lexicographic order.
\<close>

definition precedes :: "string \<Rightarrow> CommandInfo \<Rightarrow> CommandInfo \<Rightarrow> bool" where
  "precedes q a b =
    (let sa = startsWith (toLowerCase (name a)) (toLowerCase q);
         sb = startsWith (toLowerCase (name b)) (toLowerCase q)
     in (sa \<and> \<not> sb) \<or> (sa = sb \<and> (name a = name b \<or> str_less (name a) (name b))))"

text \<open>
  The body of the \<open>try\<close> block: it fails when \<open>listCommands\<close> fails, and otherwise gives
  the list handed to \<open>setCommands\<close>.
\<close>

definition loadCommands_try ::
  "js_error + ApiCommand list \<Rightarrow> string \<Rightarrow> bool \<Rightarrow> (CommandInfo \<Rightarrow> bool) \<Rightarrow>
   js_error + CommandInfo list" where
  "loadCommands_try listCommands searchQuery hasMessages isAvailable =
    (case listCommands of
       Inl e \<Rightarrow> Inl e
     | Inr apiCommands \<Rightarrow>
         Inr (array_sort (compareCommands searchQuery)
               (filtered searchQuery hasMessages isAvailable
                 (allCommands (builtInCommands hasMessages) (customCommands apiCommands)))))"

text \<open>The \<open>catch\<close> block (lines 160 to 187): the built-in commands alone.\<close>

definition loadCommands_catch ::
  "string \<Rightarrow> bool \<Rightarrow> (CommandInfo \<Rightarrow> bool) \<Rightarrow> CommandInfo list" where
  "loadCommands_catch searchQuery hasMessages isAvailable =
    filtered searchQuery hasMessages isAvailable (builtInCommands hasMessages)"

text \<open>
  \<open>loadCommands\<close>: the value that \<open>setCommands\<close> receives. The effect depends on the
  query, on \<open>hasMessagesInCurrentSession\<close> and on the callback \<open>isCommandAvailable\<close>;
  the result of \<open>listCommands\<close> is the first argument.
\<close>

definition loadCommands ::
  "js_error + ApiCommand list \<Rightarrow> string \<Rightarrow> bool \<Rightarrow> (CommandInfo \<Rightarrow> bool) \<Rightarrow>
   CommandInfo list" where
  "loadCommands listCommands searchQuery hasMessages isAvailable =
    (case loadCommands_try listCommands searchQuery hasMessages isAvailable of
       Inr cmds \<Rightarrow> cmds
     | Inl e \<Rightarrow> loadCommands_catch searchQuery hasMessages isAvailable)"

text \<open>The visible list of the component in store state \<open>st\<close>.\<close>

definition visibleCommands :: "js_error + ApiCommand list \<Rightarrow> string \<Rightarrow> SessionStore \<Rightarrow> CommandInfo list" where
  "visibleCommands listCommands searchQuery st =
    loadCommands listCommands searchQuery (hasMessagesInCurrentSession st) (available st)"

section \<open>Selection state machine: \<open>handleKeyDown\<close>\<close>

text \<open>
  The component holds the visible list \<open>commands\<close> and the highlighted index
  \<open>selectedIndex\<close>; \<open>handleKeyDown\<close> receives an already decoded key name. The two
  callbacks \<open>onClose\<close> and \<open>onCommandSelect\<close> are the signals the handler emits; the
  model returns them as a list, in the order of the calls. The index is an integer: the
  component stores nothing else in it, and it may be stale (outside the list) or negative.
\<close>

record SelectionState =
  commands :: "CommandInfo list"
  selectedIndex :: int

datatype Signal = Close | CommandSelect CommandInfo

text \<open>
  The remainder operator \<open>%\<close> of JavaScript on integers: the result has the sign of the
  dividend. The divisor is never zero where the handler uses it (the guard
  \<open>total === 0\<close> returns first).
\<close>

definition js_rem :: "int \<Rightarrow> int \<Rightarrow> int" where
  "js_rem a b = sgn a * (\<bar>a\<bar> mod \<bar>b\<bar>)"

text \<open>Reading \<open>commands[i]\<close>: out of range the source gets \<open>undefined\<close>, here \<open>None\<close>.\<close>

definition array_get :: "'a list \<Rightarrow> int \<Rightarrow> 'a option" where
  "array_get xs i = (if 0 \<le> i \<and> i < int (length xs) then Some (xs ! nat i) else None)"

definition handleKeyDown :: "string \<Rightarrow> SelectionState \<Rightarrow> SelectionState \<times> Signal list" where
  "handleKeyDown key s =
    (let total = int (length (commands s)) in
     if key = ''Escape'' then (s, [Close])
     else if total = 0 then (s, [])
     else if key = ''ArrowDown'' then
       (s\<lparr>selectedIndex := js_rem (selectedIndex s + 1) total\<rparr>, [])
     else if key = ''ArrowUp'' then
       (s\<lparr>selectedIndex := js_rem (selectedIndex s - 1 + total) total\<rparr>, [])
     else if key = ''Enter'' \<or> key = ''Tab'' then
       (let safeIndex = js_rem (js_rem (selectedIndex s) total + total) total in
        case array_get (commands s) safeIndex of
          Some cmd \<Rightarrow> (s, [CommandSelect cmd])
        | None \<Rightarrow> (s, []))
     else (s, []))"

section \<open>Execution and history: \<open>executeCommand\<close>\<close>

text \<open>
  \<open>executeCommand\<close> of the session store, as listed in \<open>summary.md\<close> (lines 161 to
  192). The listing abbreviates the \<open>switch\<close> over the command name
  (\<open>// ... other commands\<close>), so the outcome of the backend call is an argument:
  \<open>Inr ()\<close> when the call returns, \<open>Inl e\<close> when it throws \<open>e\<close>. \<open>Date.now()\<close> is
  the argument \<open>now\<close>. The result is what the caller sees (return or rethrown error)
  and the store afterwards.
\<close>

definition executeCommand ::
  "CommandInfo \<Rightarrow> js_error + unit \<Rightarrow> int \<Rightarrow> SessionStore \<Rightarrow> (js_error + unit) \<times> SessionStore" where
  "executeCommand cmd outcome now st =
    (if currentSessionId st = None \<or> currentSessionId st = Some [] then
       (Inl (Error ''No active session''), st)
     else
       (case outcome of
          Inr u \<Rightarrow>
            (Inr (),
             st\<lparr>commandHistory := commandHistory st @
                  [\<lparr>command = name cmd, timestamp = now, success = True\<rparr>]\<rparr>)
        | Inl error \<Rightarrow>
            (Inl error,
             st\<lparr>commandHistory := commandHistory st @
                  [\<lparr>command = name cmd, timestamp = now, success = False\<rparr>]\<rparr>)))"

text \<open>A run of execution attempts, one after the other, on the store.\<close>

fun executeAll :: "SessionStore \<Rightarrow> (CommandInfo \<times> (js_error + unit) \<times> int) list \<Rightarrow> SessionStore" where
  "executeAll st [] = st"
| "executeAll st ((cmd, outcome, now) # rest) =
     executeAll (snd (executeCommand cmd outcome now st)) rest"

text \<open>The entry one attempt leaves in the history when a session is active.\<close>

definition entryOf :: "CommandInfo \<times> (js_error + unit) \<times> int \<Rightarrow> HistoryEntry" where
  "entryOf a =
    (case a of (cmd, outcome, now) \<Rightarrow>
       \<lparr>command = name cmd, timestamp = now, success = (case outcome of Inr u \<Rightarrow> True | Inl e \<Rightarrow> False)\<rparr>)"

section \<open>Direct server API: \<open>opencodeApi.ts\<close>\<close>

text \<open>
  JSON values as \<open>response.json()\<close> yields them. Numbers are integers here; an object is
  the list of its members in source order, and a repeated key reads as its last member.
\<close>

datatype json = JNull | JBool bool | JNum int | JStr string | JArr "json list" | JObj "(string \<times> json) list"

record Response =
  ok :: bool
  status :: nat
  statusText :: string
  body :: "json option"

record Request =
  req_url :: string
  req_method :: string
  req_headers :: "(string \<times> string) list"
  req_body :: "json option"

text \<open>
  \<open>body\<close> is the parsed body of the response, \<open>None\<close> when it is not valid JSON, so
  \<open>response.json()\<close> rejects with a \<open>SyntaxError\<close> there.
\<close>

definition response_json :: "Response \<Rightarrow> js_error + json" where
  "response_json response = (case body response of None \<Rightarrow> Inl SyntaxError | Some j \<Rightarrow> Inr j)"

text \<open>Reading a property: \<open>TypeError\<close> on \<open>null\<close>, \<open>undefined\<close> (\<open>None\<close>) when absent.\<close>

definition js_get :: "json \<Rightarrow> string \<Rightarrow> js_error + json option" where
  "js_get v key =
    (case v of
       JNull \<Rightarrow> Inl TypeError
     | JObj members \<Rightarrow> Inr (map_of (rev members) key)
     | _ \<Rightarrow> Inr None)"

definition js_truthy :: "json \<Rightarrow> bool" where
  "js_truthy v =
    (case v of
       JNull \<Rightarrow> False
     | JBool b \<Rightarrow> b
     | JNum n \<Rightarrow> n \<noteq> 0
     | JStr s \<Rightarrow> s \<noteq> []
     | _ \<Rightarrow> True)"

text \<open>Decimal rendering of a number, as a template literal or \<open>String\<close> produces it.\<close>

function show_nat :: "nat \<Rightarrow> string" where
  "show_nat n =
    (if n < 10 then [''0123456789'' ! n]
     else show_nat (n div 10) @ [''0123456789'' ! (n mod 10)])"
  by pat_completeness auto
termination
  by (relation "measure (\<lambda>n. n)") auto

declare show_nat.simps [simp del]

definition show_int :: "int \<Rightarrow> string" where
  "show_int i = (if i < 0 then CHR ''-'' # show_nat (nat (- i)) else show_nat (nat i))"

fun join_comma :: "string list \<Rightarrow> string" where
  "join_comma [] = []"
| "join_comma [s] = s"
| "join_comma (s # t # ts) = s @ '','' @ join_comma (t # ts)"

text \<open>\<open>String(v)\<close>, which \<open>new Error(v)\<close> applies to its argument.\<close>

fun js_String :: "json \<Rightarrow> string" where
  "js_String JNull = ''null''"
| "js_String (JBool b) = (if b then ''true'' else ''false'')"
| "js_String (JNum n) = show_int n"
| "js_String (JStr s) = s"
| "js_String (JArr vs) = join_comma (map (\<lambda>v. if v = JNull then [] else js_String v) vs)"
| "js_String (JObj members) = ''[object Object]''"

definition API_BASE :: string where
  "API_BASE = ''/api''"

definition getAuthHeaders :: "(string \<times> string) list" where
  "getAuthHeaders = [(''Content-Type'', ''application/json''), (''X-OpenChamber-Version'', ''1.0'')]"

text \<open>
  The \<open>try\<close> block of \<open>handleApiError\<close> (lines 26 to 29): every path through it ends
  in a \<open>throw\<close>, of the parser, of the property read or of line 29.
\<close>

definition handleApiError_try :: "Response \<Rightarrow> js_error + unit" where
  "handleApiError_try response =
    (case response_json response of
       Inl e \<Rightarrow> Inl e
     | Inr errorData \<Rightarrow>
         (case js_get errorData ''message'' of
            Inl e \<Rightarrow> Inl e
          | Inr (Some m) \<Rightarrow>
              if js_truthy m then Inl (Error (js_String m))
              else (case js_get errorData ''error'' of
                      Inl e \<Rightarrow> Inl e
                    | Inr (Some er) \<Rightarrow>
                        if js_truthy er then Inl (Error (js_String er))
                        else Inl (Error (''HTTP '' @ show_nat (status response)))
                    | Inr None \<Rightarrow> Inl (Error (''HTTP '' @ show_nat (status response))))
          | Inr None \<Rightarrow>
              (case js_get errorData ''error'' of
                 Inl e \<Rightarrow> Inl e
               | Inr (Some er) \<Rightarrow>
                   if js_truthy er then Inl (Error (js_String er))
                   else Inl (Error (''HTTP '' @ show_nat (status response)))
               | Inr None \<Rightarrow> Inl (Error (''HTTP '' @ show_nat (status response))))))"

text \<open>
  \<open>handleApiError\<close> (lines 25 to 33): the \<open>catch\<close> clause has no binding and receives
  whatever the \<open>try\<close> block throws, the error of line 29 included.
\<close>

definition handleApiError :: "Response \<Rightarrow> js_error + unit" where
  "handleApiError response =
    (case handleApiError_try response of
       Inl e \<Rightarrow> Inl (Error (''HTTP '' @ show_nat (status response) @ '': '' @ statusText response))
     | Inr u \<Rightarrow> Inr u)"

text \<open>
  The three operations. \<open>fetch\<close> is the network: it rejects with an error or resolves to a
  response.
\<close>

definition editMessage ::
  "(Request \<Rightarrow> js_error + Response) \<Rightarrow> string \<Rightarrow> string \<Rightarrow> string \<Rightarrow> js_error + json" where
  "editMessage fetch sessionId messageId content =
    (case fetch \<lparr>req_url = API_BASE @ ''/session/'' @ sessionId @ ''/message/'' @ messageId,
                 req_method = ''PATCH'', req_headers = getAuthHeaders,
                 req_body = Some (JObj [(''content'', JStr content)])\<rparr> of
       Inl e \<Rightarrow> Inl e
     | Inr response \<Rightarrow>
         (case (if \<not> ok response then handleApiError response else Inr ()) of
            Inl e \<Rightarrow> Inl e
          | Inr u \<Rightarrow> response_json response))"

definition clearSession ::
  "(Request \<Rightarrow> js_error + Response) \<Rightarrow> string \<Rightarrow> js_error + json" where
  "clearSession fetch sessionId =
    (case fetch \<lparr>req_url = API_BASE @ ''/session/'' @ sessionId @ ''/clear'',
                 req_method = ''POST'', req_headers = getAuthHeaders, req_body = None\<rparr> of
       Inl e \<Rightarrow> Inl e
     | Inr response \<Rightarrow>
         (case (if \<not> ok response then handleApiError response else Inr ()) of
            Inl e \<Rightarrow> Inl e
          | Inr u \<Rightarrow> response_json response))"

definition compactSession ::
  "(Request \<Rightarrow> js_error + Response) \<Rightarrow> string \<Rightarrow> js_error + json" where
  "compactSession fetch sessionId =
    (case fetch \<lparr>req_url = API_BASE @ ''/session/'' @ sessionId @ ''/compact'',
                 req_method = ''POST'', req_headers = getAuthHeaders, req_body = None\<rparr> of
       Inl e \<Rightarrow> Inl e
     | Inr response \<Rightarrow>
         (case (if \<not> ok response then handleApiError response else Inr ()) of
            Inl e \<Rightarrow> Inl e
          | Inr u \<Rightarrow> response_json response))"

section \<open>Example inputs\<close>

text \<open>
  A session with two messages, the last one from the assistant, a pending revert and an
  idle phase; a store with no active session; the same with a busy phase recorded under
  the empty session id.
\<close>

definition st_two :: SessionStore where
  "st_two = \<lparr>currentSessionId = Some ''s1'',
     messages = [''s1'' \<mapsto> [\<lparr>info = \<lparr>role = ''user''\<rparr>\<rparr>, \<lparr>info = \<lparr>role = ''assistant''\<rparr>\<rparr>]],
     sessions = [\<lparr>session_id = ''s1'', revert = Some \<lparr>messageID = ''m1''\<rparr>\<rparr>],
     sessionActivityPhase = Some [''s1'' \<mapsto> ''idle''],
     commandHistory = []\<rparr>"

definition st_none :: SessionStore where
  "st_none = \<lparr>currentSessionId = None, messages = Map.empty, sessions = [],
     sessionActivityPhase = Some Map.empty, commandHistory = []\<rparr>"

definition st_none_busy :: SessionStore where
  "st_none_busy = \<lparr>currentSessionId = None, messages = Map.empty, sessions = [],
     sessionActivityPhase = Some [[] \<mapsto> ''busy''], commandHistory = []\<rparr>"

text \<open>
  A store with no active session that still holds another session: its messages, its
  pending revert and its busy phase. A dynamic catalog with one command.
\<close>

definition st_other :: SessionStore where
  "st_other = \<lparr>currentSessionId = None,
     messages = [''s1'' \<mapsto> [\<lparr>info = \<lparr>role = ''user''\<rparr>\<rparr>, \<lparr>info = \<lparr>role = ''assistant''\<rparr>\<rparr>]],
     sessions = [\<lparr>session_id = ''s1'', revert = Some \<lparr>messageID = ''m1''\<rparr>\<rparr>],
     sessionActivityPhase = Some [''s1'' \<mapsto> ''busy''],
     commandHistory = []\<rparr>"

definition api_deploy :: "ApiCommand list" where
  "api_deploy = [\<lparr>cmd_name = ''deploy'', cmd_description = Some ''Ship the build'',
                  cmd_agent = Some ''build'', cmd_model = None\<rparr>]"

text \<open>A failed response whose JSON body is \<open>{"message": "Session not found"}\<close>.\<close>

definition response404 :: Response where
  "response404 = \<lparr>ok = False, status = 404, statusText = ''Not Found'',
      body = Some (JObj [(''message'', JStr ''Session not found'')])\<rparr>"

definition fetch404 :: "Request \<Rightarrow> js_error + Response" where
  "fetch404 request = Inr response404"

text \<open>A dynamic catalog whose only command is called \<open>init\<close>, like a built-in one.\<close>

definition api_init :: "ApiCommand list" where
  "api_init = [\<lparr>cmd_name = ''init'', cmd_description = Some ''Project bootstrap'',
                cmd_agent = Some ''build'', cmd_model = None\<rparr>]"

section \<open>Properties of the selection state machine\<close>

lemma js_rem_nonneg: "0 \<le> a \<Longrightarrow> 0 < b \<Longrightarrow> js_rem a b = a mod b"
  by (cases "a = 0") (simp_all add: js_rem_def)

lemma js_rem_bounds: "0 < b \<Longrightarrow> - b < js_rem a b \<and> js_rem a b < b"
proof -
  assume b: "0 < b"
  have m: "0 \<le> \<bar>a\<bar> mod \<bar>b\<bar> \<and> \<bar>a\<bar> mod \<bar>b\<bar> < b"
    using b by simp
  show ?thesis
  proof (cases "a < 0")
    case True
    then have "js_rem a b = - (\<bar>a\<bar> mod \<bar>b\<bar>)" by (simp add: js_rem_def)
    with m b show ?thesis by linarith
  next
    case False
    then have "js_rem a b = a mod b" using b js_rem_nonneg [of a b] by simp
    with b show ?thesis
      by (smt (verit) pos_mod_bound pos_mod_sign)
  qed
qed

lemma js_rem_cong_mod: "0 < b \<Longrightarrow> js_rem a b mod b = a mod b"
proof (cases "a < 0")
  case True
  assume b: "0 < b"
  from True have "js_rem a b = - ((- a) mod b)"
    using b by (simp add: js_rem_def)
  then have "js_rem a b mod b = (- ((- a) mod b)) mod b" by simp
  also have "\<dots> = (- (- a)) mod b" by (rule mod_minus_eq)
  finally show ?thesis by simp
next
  case False
  assume b: "0 < b"
  with False show ?thesis by (simp add: js_rem_nonneg)
qed

lemma safeIndex_eq: "0 < b \<Longrightarrow> js_rem (js_rem a b + b) b = a mod b"
proof -
  assume b: "0 < b"
  have "0 \<le> js_rem a b + b" using js_rem_bounds [OF b, of a] by linarith
  then have "js_rem (js_rem a b + b) b = (js_rem a b + b) mod b"
    using b by (rule js_rem_nonneg)
  also have "\<dots> = js_rem a b mod b" by simp
  also have "\<dots> = a mod b" using b by (rule js_rem_cong_mod)
  finally show ?thesis .
qed

text \<open>
  Claim C7. With \<open>total > 0\<close> visible commands and \<open>selectedIndex\<close> in \<open>[0, total)\<close>,
  ArrowDown sets the index to \<open>(selectedIndex + 1) mod total\<close> and ArrowUp sets it to
  \<open>(selectedIndex - 1 + total) mod total\<close>, changing nothing else and emitting no signal;
  with an empty list both keys leave the state as it is.
\<close>

theorem navigate_wraps:
  "(commands s \<noteq> [] \<and> 0 \<le> selectedIndex s \<and> selectedIndex s < int (length (commands s)) \<longrightarrow>
      handleKeyDown ''ArrowDown'' s =
        (s\<lparr>selectedIndex := (selectedIndex s + 1) mod int (length (commands s))\<rparr>, []) \<and>
      handleKeyDown ''ArrowUp'' s =
        (s\<lparr>selectedIndex :=
            (selectedIndex s - 1 + int (length (commands s))) mod int (length (commands s))\<rparr>, []))
   \<and> (commands s = [] \<longrightarrow>
      handleKeyDown ''ArrowDown'' s = (s, []) \<and> handleKeyDown ''ArrowUp'' s = (s, []))"
proof (intro conjI impI)
  assume a: "commands s \<noteq> [] \<and> 0 \<le> selectedIndex s \<and> selectedIndex s < int (length (commands s))"
  then have pos: "0 < int (length (commands s))" by simp
  from a have d: "js_rem (selectedIndex s + 1) (int (length (commands s)))
      = (selectedIndex s + 1) mod int (length (commands s))"
    using pos by (intro js_rem_nonneg) simp_all
  from a have u: "js_rem (selectedIndex s - 1 + int (length (commands s))) (int (length (commands s)))
      = (selectedIndex s - 1 + int (length (commands s))) mod int (length (commands s))"
    using pos by (intro js_rem_nonneg) simp_all
  from a d show "handleKeyDown ''ArrowDown'' s =
        (s\<lparr>selectedIndex := (selectedIndex s + 1) mod int (length (commands s))\<rparr>, [])"
    by (simp add: handleKeyDown_def Let_def)
  from a u show "handleKeyDown ''ArrowUp'' s =
        (s\<lparr>selectedIndex :=
            (selectedIndex s - 1 + int (length (commands s))) mod int (length (commands s))\<rparr>, [])"
    by (simp add: handleKeyDown_def Let_def)
next
  assume "commands s = []"
  then show "handleKeyDown ''ArrowDown'' s = (s, [])" by (simp add: handleKeyDown_def)
next
  assume "commands s = []"
  then show "handleKeyDown ''ArrowUp'' s = (s, [])" by (simp add: handleKeyDown_def)
qed

theorem navigate_wraps_witness:
  "handleKeyDown ''ArrowDown''
      \<lparr>commands = [\<lparr>name = ''redo'', description = None, agent = None, model = None, isBuiltIn = Some True\<rparr>,
                   \<lparr>name = ''revert'', description = None, agent = None, model = None, isBuiltIn = Some True\<rparr>,
                   \<lparr>name = ''summarize'', description = None, agent = None, model = None, isBuiltIn = Some True\<rparr>],
       selectedIndex = 2\<rparr>
    = (\<lparr>commands = [\<lparr>name = ''redo'', description = None, agent = None, model = None, isBuiltIn = Some True\<rparr>,
                   \<lparr>name = ''revert'', description = None, agent = None, model = None, isBuiltIn = Some True\<rparr>,
                   \<lparr>name = ''summarize'', description = None, agent = None, model = None, isBuiltIn = Some True\<rparr>],
       selectedIndex = 0\<rparr>, [])
   \<and> handleKeyDown ''ArrowUp''
      \<lparr>commands = [\<lparr>name = ''redo'', description = None, agent = None, model = None, isBuiltIn = Some True\<rparr>,
                   \<lparr>name = ''revert'', description = None, agent = None, model = None, isBuiltIn = Some True\<rparr>,
                   \<lparr>name = ''summarize'', description = None, agent = None, model = None, isBuiltIn = Some True\<rparr>],
       selectedIndex = 0\<rparr>
    = (\<lparr>commands = [\<lparr>name = ''redo'', description = None, agent = None, model = None, isBuiltIn = Some True\<rparr>,
                   \<lparr>name = ''revert'', description = None, agent = None, model = None, isBuiltIn = Some True\<rparr>,
                   \<lparr>name = ''summarize'', description = None, agent = None, model = None, isBuiltIn = Some True\<rparr>],
       selectedIndex = 2\<rparr>, [])
   \<and> handleKeyDown ''ArrowDown'' \<lparr>commands = [], selectedIndex = 0\<rparr>
        = (\<lparr>commands = [], selectedIndex = 0\<rparr>, [])
   \<and> handleKeyDown ''ArrowUp'' \<lparr>commands = [], selectedIndex = 0\<rparr>
        = (\<lparr>commands = [], selectedIndex = 0\<rparr>, [])"
  using navigate_wraps [of "\<lparr>commands = [\<lparr>name = ''redo'', description = None, agent = None, model = None, isBuiltIn = Some True\<rparr>,
                   \<lparr>name = ''revert'', description = None, agent = None, model = None, isBuiltIn = Some True\<rparr>,
                   \<lparr>name = ''summarize'', description = None, agent = None, model = None, isBuiltIn = Some True\<rparr>],
       selectedIndex = 2\<rparr>"]
    navigate_wraps [of "\<lparr>commands = [\<lparr>name = ''redo'', description = None, agent = None, model = None, isBuiltIn = Some True\<rparr>,
                   \<lparr>name = ''revert'', description = None, agent = None, model = None, isBuiltIn = Some True\<rparr>,
                   \<lparr>name = ''summarize'', description = None, agent = None, model = None, isBuiltIn = Some True\<rparr>],
       selectedIndex = 0\<rparr>"]
    navigate_wraps [of "\<lparr>commands = [], selectedIndex = 0\<rparr>"]
  by simp

text \<open>
  Claim C8. Enter or Tab on an empty list changes nothing and emits nothing (the model is
  total: no exception). On a list of \<open>total > 0\<close> commands it emits exactly the command at
  \<open>safeIndex = ((selectedIndex % total) + total) % total\<close>; that index lies in
  \<open>[0, total)\<close> and equals \<open>selectedIndex mod total\<close>, and the state is unchanged.
\<close>

theorem confirm_emits_safeIndex:
  "(key = ''Enter'' \<or> key = ''Tab'') \<longrightarrow>
   (commands s = [] \<longrightarrow> handleKeyDown key s = (s, [])) \<and>
   (commands s \<noteq> [] \<longrightarrow>
      (let total = int (length (commands s));
           safeIndex = js_rem (js_rem (selectedIndex s) total + total) total
       in 0 \<le> safeIndex \<and> safeIndex < total \<and> safeIndex = selectedIndex s mod total \<and>
          handleKeyDown key s = (s, [CommandSelect (commands s ! nat safeIndex)])))"
proof (intro impI conjI)
  assume k: "key = ''Enter'' \<or> key = ''Tab''" and e: "commands s = []"
  show "handleKeyDown key s = (s, [])"
  proof (cases "key = ''Enter''")
    case True
    with e show ?thesis by (simp add: handleKeyDown_def)
  next
    case False
    with k have "key = ''Tab''" by simp
    with e show ?thesis by (simp add: handleKeyDown_def)
  qed
next
  assume k: "key = ''Enter'' \<or> key = ''Tab''" and ne: "commands s \<noteq> []"
  define total where "total = int (length (commands s))"
  define safeIndex where "safeIndex = js_rem (js_rem (selectedIndex s) total + total) total"
  from ne have pos: "0 < total" by (simp add: total_def)
  have eq: "safeIndex = selectedIndex s mod total"
    unfolding safeIndex_def using pos by (rule safeIndex_eq)
  have lo: "0 \<le> safeIndex" and hi: "safeIndex < total"
    using eq pos by simp_all
  have get: "array_get (commands s) safeIndex = Some (commands s ! nat safeIndex)"
    using lo hi by (simp add: array_get_def total_def)
  from pos have nz: "total \<noteq> 0" by simp
  have run: "handleKeyDown key s = (s, [CommandSelect (commands s ! nat safeIndex)])"
  proof (cases "key = ''Enter''")
    case True
    with nz get show ?thesis
      by (simp add: handleKeyDown_def Let_def total_def [symmetric] safeIndex_def [symmetric])
  next
    case False
    with k have "key = ''Tab''" by simp
    with nz get show ?thesis
      by (simp add: handleKeyDown_def Let_def total_def [symmetric] safeIndex_def [symmetric])
  qed
  from lo hi eq run
  show "let total = int (length (commands s));
            safeIndex = js_rem (js_rem (selectedIndex s) total + total) total
        in 0 \<le> safeIndex \<and> safeIndex < total \<and> safeIndex = selectedIndex s mod total \<and>
           handleKeyDown key s = (s, [CommandSelect (commands s ! nat safeIndex)])"
    by (simp add: Let_def total_def [symmetric] safeIndex_def [symmetric])
qed

theorem confirm_emits_safeIndex_witness:
  "handleKeyDown ''Enter''
      \<lparr>commands = [\<lparr>name = ''redo'', description = None, agent = None, model = None, isBuiltIn = Some True\<rparr>,
                   \<lparr>name = ''revert'', description = None, agent = None, model = None, isBuiltIn = Some True\<rparr>,
                   \<lparr>name = ''summarize'', description = None, agent = None, model = None, isBuiltIn = Some True\<rparr>],
       selectedIndex = - 2\<rparr>
    = (\<lparr>commands = [\<lparr>name = ''redo'', description = None, agent = None, model = None, isBuiltIn = Some True\<rparr>,
                   \<lparr>name = ''revert'', description = None, agent = None, model = None, isBuiltIn = Some True\<rparr>,
                   \<lparr>name = ''summarize'', description = None, agent = None, model = None, isBuiltIn = Some True\<rparr>],
       selectedIndex = - 2\<rparr>,
       [CommandSelect \<lparr>name = ''revert'', description = None, agent = None, model = None, isBuiltIn = Some True\<rparr>])
   \<and> handleKeyDown ''Tab'' \<lparr>commands = [], selectedIndex = 5\<rparr>
        = (\<lparr>commands = [], selectedIndex = 5\<rparr>, [])"
  using confirm_emits_safeIndex [of "''Enter''"
      "\<lparr>commands = [\<lparr>name = ''redo'', description = None, agent = None, model = None, isBuiltIn = Some True\<rparr>,
                   \<lparr>name = ''revert'', description = None, agent = None, model = None, isBuiltIn = Some True\<rparr>,
                   \<lparr>name = ''summarize'', description = None, agent = None, model = None, isBuiltIn = Some True\<rparr>],
       selectedIndex = - 2\<rparr>"]
    confirm_emits_safeIndex [of "''Tab''" "\<lparr>commands = [], selectedIndex = 5\<rparr>"]
  by (simp add: Let_def)

text \<open>
  Claim C9. Escape calls \<open>onClose\<close> in every state, also on an empty list, because it is
  tested before the guard \<open>total === 0\<close>; a key other than Escape, ArrowDown, ArrowUp,
  Enter and Tab changes nothing and emits nothing.
\<close>

theorem escape_closes_other_keys_ignored:
  "handleKeyDown ''Escape'' s = (s, [Close]) \<and>
   (key \<notin> {''Escape'', ''ArrowDown'', ''ArrowUp'', ''Enter'', ''Tab''} \<longrightarrow>
      handleKeyDown key s = (s, []))"
  by (simp add: handleKeyDown_def Let_def)

theorem escape_closes_other_keys_ignored_witness:
  "handleKeyDown ''Escape'' \<lparr>commands = [], selectedIndex = 0\<rparr>
      = (\<lparr>commands = [], selectedIndex = 0\<rparr>, [Close]) \<and>
   handleKeyDown ''a'' \<lparr>commands = [], selectedIndex = 0\<rparr>
      = (\<lparr>commands = [], selectedIndex = 0\<rparr>, [])"
  using escape_closes_other_keys_ignored [of "\<lparr>commands = [], selectedIndex = 0\<rparr>" "''a''"]
  by simp

section \<open>Properties of the API client\<close>

lemma show_nat_404: "show_nat 404 = ''404''"
  by (simp add: show_nat.simps)

lemma handleApiError_try_throws: "\<exists>e. handleApiError_try response = Inl e"
  by (auto simp: handleApiError_try_def split: sum.splits option.splits)

lemma handleApiError_always_fallback:
  "handleApiError response =
     Inl (Error (''HTTP '' @ show_nat (status response) @ '': '' @ statusText response))"
  using handleApiError_try_throws [of response]
  by (auto simp: handleApiError_def)

text \<open>
  Claim C2. On the failed response with body \<open>{"message": "Session not found"}\<close> the
  \<open>try\<close> block of \<open>handleApiError\<close> does throw an error with the extracted message,
  but its own \<open>catch\<close> replaces it: \<open>editMessage\<close>, \<open>clearSession\<close> and
  \<open>compactSession\<close> all fail with \<open>HTTP 404: Not Found\<close>, not with the message of
  the body.
\<close>

theorem api_error_message_swallowed:
  "handleApiError_try response404 = Inl (Error ''Session not found'') \<and>
   editMessage fetch404 ''s1'' ''m1'' ''hello'' = Inl (Error ''HTTP 404: Not Found'') \<and>
   clearSession fetch404 ''s1'' = Inl (Error ''HTTP 404: Not Found'') \<and>
   compactSession fetch404 ''s1'' = Inl (Error ''HTTP 404: Not Found'')"
  by (simp add: handleApiError_try_def handleApiError_def editMessage_def clearSession_def
      compactSession_def fetch404_def response404_def response_json_def js_get_def
      js_truthy_def show_nat_404)

section \<open>Properties of the command history\<close>

lemma executeCommand_session:
  "currentSessionId (snd (executeCommand cmd outcome now st)) = currentSessionId st"
  by (simp add: executeCommand_def split: sum.splits)

lemma executeCommand_history:
  "currentSessionId st \<noteq> None \<Longrightarrow> currentSessionId st \<noteq> Some [] \<Longrightarrow>
   commandHistory (snd (executeCommand cmd outcome now st)) =
     commandHistory st @ [entryOf (cmd, outcome, now)]"
  by (simp add: executeCommand_def entryOf_def split: sum.splits)

lemma executeCommand_no_session:
  "currentSessionId st = None \<or> currentSessionId st = Some [] \<Longrightarrow>
   executeCommand cmd outcome now st = (Inl (Error ''No active session''), st)"
  by (auto simp add: executeCommand_def)

lemma executeAll_history:
  "currentSessionId st \<noteq> None \<Longrightarrow> currentSessionId st \<noteq> Some [] \<Longrightarrow>
   commandHistory (executeAll st attempts) = commandHistory st @ map entryOf attempts"
proof (induction attempts arbitrary: st)
  case Nil
  then show ?case by simp
next
  case (Cons a attempts)
  obtain cmd outcome now where a: "a = (cmd, outcome, now)" by (cases a) auto
  let ?st' = "snd (executeCommand cmd outcome now st)"
  have "commandHistory (executeAll ?st' attempts) = commandHistory ?st' @ map entryOf attempts"
    using Cons.prems by (intro Cons.IH) (simp_all add: executeCommand_session)
  then show ?case
    using Cons.prems by (simp add: a executeCommand_history)
qed

lemma executeAll_no_session:
  "currentSessionId st = None \<or> currentSessionId st = Some [] \<Longrightarrow> executeAll st attempts = st"
  by (induction attempts arbitrary: st) (auto simp: executeCommand_no_session)

text \<open>
  Claim C6, as stated, fails: an attempt with no active session throws
  \<open>No active session\<close> before the \<open>try\<close> block and appends nothing, and the entry of a
  failed attempt holds the command name, the time and \<open>success = false\<close> only, so two
  failures with different messages leave the same entry.
\<close>

theorem history_counterexample:
  "executeCommand (builtIn ''revert'' ''Revert session to previous state'')
       (Inl (Error ''boom'')) 7 st_none
     = (Inl (Error ''No active session''), st_none) \<and>
   commandHistory st_none = [] \<and>
   commandHistory (snd (executeCommand (builtIn ''revert'' ''Revert session to previous state'')
       (Inl (Error ''boom'')) 7 st_two))
     = [\<lparr>command = ''revert'', timestamp = 7, success = False\<rparr>] \<and>
   commandHistory (snd (executeCommand (builtIn ''revert'' ''Revert session to previous state'')
       (Inl (Error ''other'')) 7 st_two))
     = [\<lparr>command = ''revert'', timestamp = 7, success = False\<rparr>]"
  by (simp add: executeCommand_def st_none_def st_two_def builtIn_def)

text \<open>
  Claim C6, amended. While a session is active every attempt, successful or not, appends
  exactly one entry \<open>{command, timestamp, success}\<close> and hands the outcome of the backend
  call to the caller: after the attempts \<open>attempts\<close> the history is the old history,
  unchanged, followed by one entry per attempt in order. With no active session an attempt
  fails with \<open>No active session\<close> and the store stays as it is.
\<close>

theorem history_one_entry_per_attempt_in_session:
  "(currentSessionId st \<noteq> None \<and> currentSessionId st \<noteq> Some [] \<longrightarrow>
      commandHistory (executeAll st attempts) = commandHistory st @ map entryOf attempts \<and>
      length (commandHistory (executeAll st attempts)) = length (commandHistory st) + length attempts \<and>
      fst (executeCommand cmd outcome now st) = outcome \<and>
      commandHistory (snd (executeCommand cmd outcome now st)) =
        commandHistory st @ [\<lparr>command = name cmd, timestamp = now, success = (outcome = Inr ())\<rparr>])
   \<and> (currentSessionId st = None \<or> currentSessionId st = Some [] \<longrightarrow>
      executeCommand cmd outcome now st = (Inl (Error ''No active session''), st) \<and>
      executeAll st attempts = st)"
proof (intro conjI impI)
  assume a: "currentSessionId st \<noteq> None \<and> currentSessionId st \<noteq> Some []"
  then show h: "commandHistory (executeAll st attempts) = commandHistory st @ map entryOf attempts"
    by (simp add: executeAll_history)
  from h show "length (commandHistory (executeAll st attempts)) = length (commandHistory st) + length attempts"
    by simp
  from a show "fst (executeCommand cmd outcome now st) = outcome"
    by (cases outcome) (auto simp: executeCommand_def)
  from a show "commandHistory (snd (executeCommand cmd outcome now st)) =
        commandHistory st @ [\<lparr>command = name cmd, timestamp = now, success = (outcome = Inr ())\<rparr>]"
    by (cases outcome) (auto simp: executeCommand_def)
next
  assume "currentSessionId st = None \<or> currentSessionId st = Some []"
  then show "executeCommand cmd outcome now st = (Inl (Error ''No active session''), st)"
    by (rule executeCommand_no_session)
next
  assume "currentSessionId st = None \<or> currentSessionId st = Some []"
  then show "executeAll st attempts = st"
    by (rule executeAll_no_session)
qed

theorem history_one_entry_per_attempt_in_session_witness:
  "commandHistory (executeAll st_two
      [(builtIn ''revert'' ''Revert session to previous state'', Inr (), 1),
       (builtIn ''clear'' ''Clear current session'', Inl (Error ''boom''), 2)])
    = [\<lparr>command = ''revert'', timestamp = 1, success = True\<rparr>,
       \<lparr>command = ''clear'', timestamp = 2, success = False\<rparr>]
   \<and> executeAll st_none [(builtIn ''revert'' ''Revert session to previous state'', Inr (), 1)]
       = st_none"
  using history_one_entry_per_attempt_in_session [of st_two
      "[(builtIn ''revert'' ''Revert session to previous state'', Inr (), 1),
       (builtIn ''clear'' ''Clear current session'', Inl (Error ''boom''), 2)]"]
    history_one_entry_per_attempt_in_session [of st_none
      "[(builtIn ''revert'' ''Revert session to previous state'', Inr (), 1)]"]
  by (simp add: st_two_def st_none_def entryOf_def builtIn_def)

section \<open>Properties of availability and of the fallback\<close>

lemma hasMessages_eq:
  "hasMessagesInCurrentSession st = (length (sessionMessages (currentSessionId st) st) > 0)"
  by (simp add: hasMessagesInCurrentSession_def sessionMessages_def split: option.splits)

lemma available_refines:
  "available st cmd = spec_isAvailable cmd (snapshot_of st)"
  by (simp add: available_def isCommandAvailable_def spec_isAvailable_def snapshot_of_def Let_def
      hasMessages_eq split: option.splits)

text \<open>
  Claim C1. Evaluated in a store state, \<open>isCommandAvailable\<close> is the table of the
  specification over the snapshot of that state: true for a command that is not built-in;
  for a built-in one, \<open>init\<close> iff there is no message, \<open>summarize\<close> iff there is one,
  \<open>revert\<close>/\<open>undo\<close> iff there are at least two, \<open>unrevert\<close>/\<open>redo\<close> iff a revert is
  pending, \<open>abort\<close> iff the phase is busy, \<open>edit\<close> iff there is a message and the last
  one is the user's, \<open>clear\<close>/\<open>compact\<close> iff there is a message, and true for any other
  name. The result is a function of the command and the snapshot alone.
\<close>

theorem isCommandAvailable_refines_spec:
  "isCommandAvailable (hasMessagesInCurrentSession st) (currentSessionId st) st cmd
     = spec_isAvailable cmd (snapshot_of st)
   \<and> (snapshot_of st' = snapshot_of st \<longrightarrow>
        isCommandAvailable (hasMessagesInCurrentSession st') (currentSessionId st') st' cmd
          = isCommandAvailable (hasMessagesInCurrentSession st) (currentSessionId st) st cmd)"
  using available_refines [of st cmd] available_refines [of st' cmd]
  by (simp add: available_def)

theorem isCommandAvailable_refines_spec_witness:
  "snapshot_of st_two =
     \<lparr>messageCount = 2, lastMessageRole = RoleAssistant, hasPendingRevert = True,
      activityPhase = Idle\<rparr>
   \<and> \<not> isCommandAvailable (hasMessagesInCurrentSession st_two) (currentSessionId st_two) st_two
         (builtIn ''edit'' ''Edit last message'')
   \<and> isCommandAvailable (hasMessagesInCurrentSession st_two) (currentSessionId st_two) st_two
         (builtIn ''undo'' ''Undo last action'')
   \<and> isCommandAvailable (hasMessagesInCurrentSession st_two) (currentSessionId st_two) st_two
         (builtIn ''redo'' ''Redo last action'')"
  using isCommandAvailable_refines_spec [of st_two "builtIn ''edit'' ''Edit last message''" st_two]
    isCommandAvailable_refines_spec [of st_two "builtIn ''undo'' ''Undo last action''" st_two]
    isCommandAvailable_refines_spec [of st_two "builtIn ''redo'' ''Redo last action''" st_two]
  by (simp add: snapshot_of_def st_two_def sessionMessages_def session_def spec_isAvailable_def
      builtIn_def)

lemma filtered_eq:
  "filtered q hasM isAvail cmds =
     filter (\<lambda>cmd. (q = [] \<or> matchesQuery q cmd) \<and> (\<not> hasM \<or> name cmd \<noteq> ''init'') \<and> isAvail cmd) cmds"
  by (auto simp: filtered_def intro: filter_cong)

lemma builtInCommands_no_init:
  "hasM \<Longrightarrow> cmd \<in> set (builtInCommands hasM) \<Longrightarrow> name cmd \<noteq> ''init''"
  by (auto simp: builtInCommands_def builtIn_def)

lemma loadCommands_fallback:
  "loadCommands (Inl e) q hasM isAvail =
     filter (\<lambda>cmd. (q = [] \<or> matchesQuery q cmd) \<and> isAvail cmd) (builtInCommands hasM)"
proof -
  have "loadCommands (Inl e) q hasM isAvail = filtered q hasM isAvail (builtInCommands hasM)"
    by (simp add: loadCommands_def loadCommands_try_def loadCommands_catch_def)
  also have "\<dots> = filter (\<lambda>cmd. (q = [] \<or> matchesQuery q cmd) \<and> isAvail cmd) (builtInCommands hasM)"
    unfolding filtered_eq
    by (rule filter_cong) (auto dest: builtInCommands_no_init)
  finally show ?thesis .
qed

lemma summarize_in:
  "builtIn ''summarize'' ''Generate a summary of the current session'' \<in> set (builtInCommands hasM)"
  by (simp add: builtInCommands_def)

lemma init_in:
  "\<not> hasM \<Longrightarrow> builtIn ''init'' ''Create/update AGENTS.md file'' \<in> set (builtInCommands hasM)"
  by (simp add: builtInCommands_def)

lemma available_init: "available st (builtIn ''init'' d) = (\<not> hasMessagesInCurrentSession st)"
  by (simp add: available_def isCommandAvailable_def builtIn_def)

lemma available_summarize: "available st (builtIn ''summarize'' d) = hasMessagesInCurrentSession st"
  by (simp add: available_def isCommandAvailable_def builtIn_def)

text \<open>
  Claim C5, as stated, fails: the query is applied to the fallback too, so a query that
  no available built-in command matches gives an empty list.
\<close>

theorem fetch_failure_counterexample:
  "visibleCommands (Inl (Error ''Failed to fetch'')) ''zzz'' st_two = []"
  by code_simp

lemma names_builtInCommands:
  "map name (builtInCommands hasM) =
     (if hasM then [] else [''init'']) @
     [''summarize'', ''revert'', ''unrevert'', ''abort'', ''undo'', ''redo'', ''edit'', ''clear'',
      ''compact'']"
  by (simp add: builtInCommands_def builtIn_def)

lemma distinct_builtInCommands: "distinct (map name (builtInCommands hasM))"
  unfolding names_builtInCommands by simp

text \<open>
  Claim C5, amended. When \<open>listCommands\<close> fails no error comes out: the visible list
  holds exactly the built-in commands that match the query (all of them when the query is
  empty) and are available, each once. With an empty query the list is not empty.
\<close>

theorem fetch_failure_falls_back:
  "set (visibleCommands (Inl e) q st) =
     {cmd \<in> set (builtInCommands (hasMessagesInCurrentSession st)).
        (q = [] \<or> matchesQuery q cmd) \<and> available st cmd}
   \<and> distinct (visibleCommands (Inl e) q st)
   \<and> (q = [] \<longrightarrow> visibleCommands (Inl e) q st \<noteq> [])"
proof (intro conjI impI)
  have eq: "visibleCommands (Inl e) q st =
     filter (\<lambda>cmd. (q = [] \<or> matchesQuery q cmd) \<and> available st cmd)
       (builtInCommands (hasMessagesInCurrentSession st))"
    by (simp add: visibleCommands_def loadCommands_fallback)
  show "set (visibleCommands (Inl e) q st) =
     {cmd \<in> set (builtInCommands (hasMessagesInCurrentSession st)).
        (q = [] \<or> matchesQuery q cmd) \<and> available st cmd}"
    unfolding eq by simp
  have "distinct (builtInCommands (hasMessagesInCurrentSession st))"
    using distinct_builtInCommands [of "hasMessagesInCurrentSession st"]
    by (simp add: distinct_map)
  then show "distinct (visibleCommands (Inl e) q st)"
    unfolding eq by simp
  assume q: "q = []"
  show "visibleCommands (Inl e) q st \<noteq> []"
  proof (cases "hasMessagesInCurrentSession st")
    case True
    then have "builtIn ''summarize'' ''Generate a summary of the current session''
        \<in> set (visibleCommands (Inl e) q st)"
      unfolding eq using q by (simp add: summarize_in available_summarize)
    then show ?thesis by auto
  next
    case False
    then have "builtIn ''init'' ''Create/update AGENTS.md file'' \<in> set (visibleCommands (Inl e) q st)"
      unfolding eq using q by (simp add: init_in available_init)
    then show ?thesis by auto
  qed
qed

lemma st_two_has_messages: "hasMessagesInCurrentSession st_two"
  by code_simp

lemma st_two_edit_hidden: "\<not> available st_two (builtIn ''edit'' ''Edit last message'')"
  by code_simp

lemma st_two_clear_available: "available st_two (builtIn ''clear'' ''Clear current session'')"
  by code_simp

lemma clear_in: "builtIn ''clear'' ''Clear current session'' \<in> set (builtInCommands hasM)"
  by (simp add: builtInCommands_def)

theorem fetch_failure_falls_back_witness:
  "builtIn ''clear'' ''Clear current session''
      \<in> set (visibleCommands (Inl (Error ''Failed to fetch'')) [] st_two) \<and>
   builtIn ''edit'' ''Edit last message''
      \<notin> set (visibleCommands (Inl (Error ''Failed to fetch'')) [] st_two) \<and>
   distinct (visibleCommands (Inl (Error ''Failed to fetch'')) [] st_two) \<and>
   visibleCommands (Inl (Error ''Failed to fetch'')) [] st_two \<noteq> []"
  using fetch_failure_falls_back [of "Error ''Failed to fetch''" "[]" st_two]
    st_two_edit_hidden st_two_clear_available clear_in [of "hasMessagesInCurrentSession st_two"]
  by simp

section \<open>Properties of the catalog merge\<close>

lemma map_of_map_set: "map_of (map_set k v m) = (map_of m)(k \<mapsto> v)"
  by (induction m) (auto simp: fun_eq_iff)

lemma set_map_set: "set (map_set k v m) \<subseteq> insert (k, v) (set m)"
  by (induction m) auto

lemma keys_map_set:
  "map fst (map_set k v m) = (if k \<in> fst ` set m then map fst m else map fst m @ [k])"
  by (induction m) auto

lemma distinct_map_set: "distinct (map fst m) \<Longrightarrow> distinct (map fst (map_set k v m))"
  by (simp add: keys_map_set)

lemma named_map_set: "named m \<Longrightarrow> named (map_set (name c) c m)"
  using set_map_set [of "name c" c m] by (auto simp: named_def)

lemma foldl_set_inv:
  "distinct (map fst m) \<Longrightarrow> named m \<Longrightarrow>
   distinct (map fst (foldl (\<lambda>m cmd. map_set (name cmd) cmd m) m cs)) \<and>
   named (foldl (\<lambda>m cmd. map_set (name cmd) cmd m) m cs)"
  by (induction cs arbitrary: m) (simp_all add: distinct_map_set named_map_set)

lemma foldl_set_lookup:
  "map_of (foldl (\<lambda>m cmd. map_set (name cmd) cmd m) m cs) n =
     (case filter (\<lambda>c. name c = n) cs of [] \<Rightarrow> map_of m n | x # xs \<Rightarrow> Some (last (x # xs)))"
proof (induction cs arbitrary: m)
  case Nil
  then show ?case by simp
next
  case (Cons c cs)
  show ?case
    by (simp add: Cons.IH map_of_map_set split: list.splits)
qed

lemma filter_by_key:
  "distinct (map fst m) \<Longrightarrow> named m \<Longrightarrow>
   filter (\<lambda>c. name c = n) (map snd m) = (case map_of m n of None \<Rightarrow> [] | Some v \<Rightarrow> [v])"
proof (induction m)
  case Nil
  then show ?case by simp
next
  case (Cons p ps)
  from Cons.prems have d: "distinct (map fst ps)" and nm: "named ps"
    and pn: "name (snd p) = fst p" and fresh: "fst p \<notin> fst ` set ps"
    by (auto simp: named_def)
  have ih: "filter (\<lambda>c. name c = n) (map snd ps) = (case map_of ps n of None \<Rightarrow> [] | Some v \<Rightarrow> [v])"
    using d nm by (rule Cons.IH)
  show ?case
  proof (cases "fst p = n")
    case True
    with fresh have "map_of ps n = None" by (simp add: map_of_eq_None_iff)
    with ih True pn show ?thesis by (cases p) simp
  next
    case False
    with ih pn show ?thesis by (cases p) auto
  qed
qed

lemma names_of_values: "named m \<Longrightarrow> map (name \<circ> snd) m = map fst m"
  by (induction m) (auto simp: named_def)

lemma commandMap_inv:
  "distinct (map fst (commandMap bs cs)) \<and> named (commandMap bs cs)"
proof -
  have "distinct (map fst (foldl (\<lambda>m cmd. map_set (name cmd) cmd m) [] bs)) \<and>
        named (foldl (\<lambda>m cmd. map_set (name cmd) cmd m) [] bs)"
    by (rule foldl_set_inv) (simp_all add: named_def)
  then show ?thesis
    unfolding commandMap_def by (intro foldl_set_inv) simp_all
qed

lemma allCommands_distinct: "distinct (map name (allCommands bs cs))"
  using commandMap_inv [of bs cs] by (simp add: allCommands_def map_values_def names_of_values)

lemma allCommands_custom_entry:
  assumes "d \<in> set cs"
  shows "filter (\<lambda>c. name c = name d) (allCommands bs cs) = [last (filter (\<lambda>c. name c = name d) cs)]"
proof -
  from assms have ne: "filter (\<lambda>c. name c = name d) cs \<noteq> []"
    by (auto simp: filter_empty_conv)
  have "map_of (commandMap bs cs) (name d) = Some (last (filter (\<lambda>c. name c = name d) cs))"
    unfolding commandMap_def foldl_set_lookup using ne by (simp split: list.splits)
  then show ?thesis
    using commandMap_inv [of bs cs] by (simp add: allCommands_def map_values_def filter_by_key)
qed

lemma filter_key_distinct:
  "distinct (map f xs) \<Longrightarrow> a \<in> set xs \<Longrightarrow> filter (\<lambda>x. f x = f a) xs = [a]"
proof (induction xs)
  case Nil
  then show ?case by simp
next
  case (Cons x xs)
  show ?case
  proof (cases "x = a")
    case True
    with Cons.prems have "f a \<notin> f ` set xs" by simp
    then have "\<forall>y \<in> set xs. f y \<noteq> f a" by (metis imageI)
    then have "filter (\<lambda>x. f x = f a) xs = []" by (simp add: filter_empty_conv)
    with True show ?thesis by simp
  next
    case False
    with Cons.prems have "a \<in> set xs" "f x \<noteq> f a" by auto
    with Cons show ?thesis by simp
  qed
qed

lemma customCommands_map: "customCommands api = map toCustom api"
  by (simp add: customCommands_def)

lemma name_toCustom: "name (toCustom a) = cmd_name a"
  by (simp add: toCustom_def)

text \<open>
  Claim C4. The merged list has at most one command per name. When a dynamic command has
  the name of a built-in one, exactly one entry of that name is left; it is the (last)
  dynamic command of that name, with \<open>isBuiltIn = false\<close>, and when the names of the
  dynamic catalog are distinct it is that very command with its description, agent and
  model.
\<close>

theorem merge_dedup:
  "distinct (map name (allCommands builtIns (customCommands api))) \<and>
   (a \<in> set api \<and> b \<in> set builtIns \<and> cmd_name a = name b \<longrightarrow>
      (\<exists>e. filter (\<lambda>c. name c = name b) (allCommands builtIns (customCommands api)) = [e] \<and>
           e = last (filter (\<lambda>c. name c = name b) (customCommands api)) \<and>
           isBuiltIn e = Some False \<and>
           (distinct (map cmd_name api) \<longrightarrow>
              e = \<lparr>name = cmd_name a, description = cmd_description a,
                   agent = cmd_agent a, model = cmd_model a, isBuiltIn = Some False\<rparr>)))"
proof (intro conjI impI)
  show "distinct (map name (allCommands builtIns (customCommands api)))"
    by (rule allCommands_distinct)
next
  assume h: "a \<in> set api \<and> b \<in> set builtIns \<and> cmd_name a = name b"
  let ?e = "last (filter (\<lambda>c. name c = name b) (customCommands api))"
  from h have mem: "toCustom a \<in> set (customCommands api)"
    by (simp add: customCommands_map)
  from h have nm: "name (toCustom a) = name b" by (simp add: name_toCustom)
  have one: "filter (\<lambda>c. name c = name b) (allCommands builtIns (customCommands api)) = [?e]"
    using allCommands_custom_entry [OF mem, of builtIns] nm by simp
  have fm: "filter (\<lambda>c. name c = name b) (customCommands api)
      = map toCustom (filter (\<lambda>x. cmd_name x = name b) api)"
    by (simp add: customCommands_map filter_map comp_def name_toCustom)
  from h have ne: "filter (\<lambda>x. cmd_name x = name b) api \<noteq> []"
    by (auto simp: filter_empty_conv)
  have e_eq: "?e = toCustom (last (filter (\<lambda>x. cmd_name x = name b) api))"
    using ne by (simp add: fm last_map)
  have nb: "isBuiltIn ?e = Some False"
    unfolding e_eq by (simp add: toCustom_def)
  have uniq: "distinct (map cmd_name api) \<longrightarrow> ?e = toCustom a"
  proof
    assume "distinct (map cmd_name api)"
    then have "filter (\<lambda>x. cmd_name x = cmd_name a) api = [a]"
      using h by (intro filter_key_distinct) simp_all
    with h show "?e = toCustom a" unfolding e_eq by simp
  qed
  from one nb uniq
  show "\<exists>e. filter (\<lambda>c. name c = name b) (allCommands builtIns (customCommands api)) = [e] \<and>
           e = last (filter (\<lambda>c. name c = name b) (customCommands api)) \<and>
           isBuiltIn e = Some False \<and>
           (distinct (map cmd_name api) \<longrightarrow>
              e = \<lparr>name = cmd_name a, description = cmd_description a,
                   agent = cmd_agent a, model = cmd_model a, isBuiltIn = Some False\<rparr>)"
    by (simp add: toCustom_def)
qed


theorem merge_dedup_witness:
  "distinct (map name (allCommands (builtInCommands False) (customCommands api_init))) \<and>
   filter (\<lambda>c. name c = ''init'') (allCommands (builtInCommands False) (customCommands api_init))
     = [\<lparr>name = ''init'', description = Some ''Project bootstrap'', agent = Some ''build'',
         model = None, isBuiltIn = Some False\<rparr>]"
  using merge_dedup [of "builtInCommands False" api_init
      "\<lparr>cmd_name = ''init'', cmd_description = Some ''Project bootstrap'',
        cmd_agent = Some ''build'', cmd_model = None\<rparr>"
      "builtIn ''init'' ''Create/update AGENTS.md file''"]
  by (simp add: api_init_def init_in) (simp add: builtIn_def)

section \<open>Properties of the sort\<close>

lemma str_less_irrefl: "\<not> str_less a a"
  by (induction a) auto

lemma str_less_total: "a \<noteq> b \<Longrightarrow> str_less a b \<or> str_less b a"
proof (induction a b rule: str_less.induct)
  case (4 x xs y ys)
  show ?case
  proof (cases "x = y")
    case True
    with "4" show ?thesis by auto
  next
    case False
    then have "(of_char x :: nat) \<noteq> of_char y" by simp
    then have "(of_char x :: nat) < of_char y \<or> (of_char y :: nat) < of_char x" by linarith
    then show ?thesis by auto
  qed
qed auto

lemma str_less_trans: "str_less a b \<Longrightarrow> str_less b c \<Longrightarrow> str_less a c"
proof (induction a b arbitrary: c rule: str_less.induct)
  case (2 y ys)
  then show ?case by (cases c) auto
next
  case (4 x xs y ys)
  then show ?case by (cases c) (auto split: if_splits)
qed auto

lemma compare_le_iff: "(compareCommands q a b \<le> 0) = precedes q a b"
  by (auto simp: compareCommands_def precedes_def Let_def localeCompare_def)

lemma precedes_total: "precedes q a b \<or> precedes q b a"
  using str_less_total [of "name a" "name b"] by (auto simp: precedes_def Let_def)

lemma precedes_trans: "precedes q a b \<Longrightarrow> precedes q b c \<Longrightarrow> precedes q a c"
  using str_less_trans [of "name a" "name b" "name c"]
  by (auto simp: precedes_def Let_def)

lemma set_insert_sorted: "set (insert_sorted cmp x xs) = insert x (set xs)"
  by (induction xs) auto

lemma set_array_sort: "set (array_sort cmp xs) = set xs"
  by (induction xs) (simp_all add: array_sort_def set_insert_sorted)

lemma sorted_insert_sorted:
  "sorted_wrt (precedes q) xs \<Longrightarrow> sorted_wrt (precedes q) (insert_sorted (compareCommands q) x xs)"
proof (induction xs)
  case Nil
  then show ?case by simp
next
  case (Cons y ys)
  show ?case
  proof (cases "precedes q x y")
    case True
    with Cons.prems have "\<forall>z \<in> set (y # ys). precedes q x z"
      by (auto intro: precedes_trans)
    with True Cons.prems show ?thesis by (simp add: compare_le_iff)
  next
    case False
    then have "precedes q y x" using precedes_total [of q x y] by simp
    with False Cons show ?thesis
      by (auto simp: compare_le_iff set_insert_sorted)
  qed
qed

lemma sorted_array_sort: "sorted_wrt (precedes q) (array_sort (compareCommands q) xs)"
  by (induction xs) (simp_all add: array_sort_def sorted_insert_sorted)

lemma try_path_sorted:
  "loadCommands_try (Inr api) q hasM isAvail = Inr cmds \<Longrightarrow> sorted_wrt (precedes q) cmds"
  by (auto simp: loadCommands_try_def sorted_array_sort)

lemma fallback_re:
  "map name (visibleCommands (Inl (Error ''Failed to fetch'')) ''re'' st_two)
     = [''summarize'', ''revert'', ''unrevert'', ''redo'', ''clear'']"
  by code_simp

lemma try_re:
  "map name (visibleCommands (Inr []) ''re'' st_two)
     = [''redo'', ''revert'', ''clear'', ''summarize'', ''unrevert'']"
  by code_simp

lemma fallback_re_unsorted:
  "\<not> sorted_wrt (precedes ''re'')
       (visibleCommands (Inl (Error ''Failed to fetch'')) ''re'' st_two)"
  by code_simp

text \<open>
  Claim C3. The \<open>try\<close> block sorts its list (\<open>try_path_sorted\<close>), the \<open>catch\<close>
  block does not: for the query \<open>re\<close> in a session with two messages and a pending
  revert, a failed fetch shows \<open>summarize, revert, unrevert, redo, clear\<close> (catalog order,
  \<open>summarize\<close> before the prefix matches and \<open>revert\<close> before \<open>redo\<close>), while a
  successful fetch of an empty catalog shows \<open>redo, revert, clear, summarize, unrevert\<close>.
\<close>

theorem fallback_skips_sort:
  "map name (visibleCommands (Inl (Error ''Failed to fetch'')) ''re'' st_two)
     = [''summarize'', ''revert'', ''unrevert'', ''redo'', ''clear''] \<and>
   \<not> sorted_wrt (precedes ''re'')
       (visibleCommands (Inl (Error ''Failed to fetch'')) ''re'' st_two) \<and>
   map name (visibleCommands (Inr []) ''re'' st_two)
     = [''redo'', ''revert'', ''clear'', ''summarize'', ''unrevert'']"
  using fallback_re fallback_re_unsorted try_re by simp

section \<open>Properties of the engine with no active session\<close>

lemma foldl_set_values:
  "snd ` set (foldl (\<lambda>m cmd. map_set (name cmd) cmd m) m cs) \<subseteq> snd ` set m \<union> set cs"
proof (induction cs arbitrary: m)
  case Nil
  then show ?case by simp
next
  case (Cons c cs)
  have "snd ` set (map_set (name c) c m) \<subseteq> insert c (snd ` set m)"
    using set_map_set [of "name c" c m] by auto
  with Cons.IH [of "map_set (name c) c m"] show ?case by auto
qed

lemma set_allCommands: "set (allCommands bs cs) \<subseteq> set bs \<union> set cs"
proof -
  have "snd ` set (foldl (\<lambda>m cmd. map_set (name cmd) cmd m) [] bs) \<subseteq> set bs"
    using foldl_set_values [of "[]" bs] by simp
  moreover have "snd ` set (commandMap bs cs)
      \<subseteq> snd ` set (foldl (\<lambda>m cmd. map_set (name cmd) cmd m) [] bs) \<union> set cs"
    unfolding commandMap_def by (rule foldl_set_values)
  ultimately have "snd ` set (commandMap bs cs) \<subseteq> set bs \<union> set cs" by blast
  then show ?thesis by (simp add: allCommands_def map_values_def)
qed

lemma customCommands_not_builtIn: "c \<in> set (customCommands api) \<Longrightarrow> isBuiltIn c = Some False"
  by (auto simp: customCommands_def toCustom_def)

lemma builtInCommands_names:
  "c \<in> set (builtInCommands hasM) \<Longrightarrow>
   name c \<in> {''init'', ''summarize'', ''revert'', ''unrevert'', ''abort'', ''undo'', ''redo'',
              ''edit'', ''clear'', ''compact''}"
  by (auto simp: builtInCommands_def builtIn_def split: if_splits)

lemma visible_subset:
  "c \<in> set (visibleCommands listCommands q st) \<Longrightarrow>
   available st c \<and>
   (c \<in> set (builtInCommands (hasMessagesInCurrentSession st)) \<or> isBuiltIn c = Some False)"
proof (cases listCommands)
  case (Inl e)
  assume "c \<in> set (visibleCommands listCommands q st)"
  with Inl show ?thesis
    by (auto simp: visibleCommands_def loadCommands_fallback)
next
  case (Inr api)
  assume "c \<in> set (visibleCommands listCommands q st)"
  with Inr have c: "c \<in> set (filtered q (hasMessagesInCurrentSession st) (available st)
      (allCommands (builtInCommands (hasMessagesInCurrentSession st)) (customCommands api)))"
    by (simp add: visibleCommands_def loadCommands_def loadCommands_try_def set_array_sort)
  then have av: "available st c" by (simp add: filtered_eq)
  from c have "c \<in> set (allCommands (builtInCommands (hasMessagesInCurrentSession st)) (customCommands api))"
    by (simp add: filtered_eq)
  then have "c \<in> set (builtInCommands (hasMessagesInCurrentSession st)) \<or> c \<in> set (customCommands api)"
    using set_allCommands by blast
  with av show ?thesis by (auto dest: customCommands_not_builtIn)
qed

lemma no_session_gated:
  assumes "currentSessionId st = None"
    and "case sessionActivityPhase st of None \<Rightarrow> True | Some phases \<Rightarrow> phases [] \<noteq> Some ''busy''"
    and "n \<in> {''summarize'', ''revert'', ''undo'', ''unrevert'', ''redo'', ''abort'', ''edit'',
              ''clear'', ''compact''}"
  shows "\<not> isCommandAvailable (hasMessagesInCurrentSession st) (currentSessionId st) st
            \<lparr>name = n, description = d, agent = a, model = m, isBuiltIn = Some True\<rparr>"
  using assms
  by (auto simp: isCommandAvailable_def hasMessagesInCurrentSession_def sessionMessages_def
      session_def split: option.splits)

lemma no_session_init:
  assumes "currentSessionId st = None"
  shows "isCommandAvailable (hasMessagesInCurrentSession st) (currentSessionId st) st
            \<lparr>name = ''init'', description = d, agent = a, model = m, isBuiltIn = Some True\<rparr>"
  using assms
  by (simp add: isCommandAvailable_def hasMessagesInCurrentSession_def)

lemma commandMap_lookup:
  "map_of (commandMap bs cs) n =
     (case filter (\<lambda>c. name c = n) cs of
        [] \<Rightarrow> (case filter (\<lambda>c. name c = n) bs of [] \<Rightarrow> None | x # xs \<Rightarrow> Some (last (x # xs)))
      | x # xs \<Rightarrow> Some (last (x # xs)))"
  by (simp add: commandMap_def foldl_set_lookup split: list.splits)

lemma filter_absent: "n \<notin> set (map f cs) \<Longrightarrow> filter (\<lambda>c. f c = n) cs = []"
  by (induction cs) auto

lemma key_in_map: "x \<in> set xs \<Longrightarrow> f x = n \<Longrightarrow> n \<in> set (map f xs)"
  by auto

lemma builtIn_init_kept:
  assumes "''init'' \<notin> set (map name cs)"
  shows "builtIn ''init'' ''Create/update AGENTS.md file'' \<in> set (allCommands (builtInCommands False) cs)"
proof -
  from assms have "filter (\<lambda>c. name c = ''init'') cs = []"
    by (rule filter_absent)
  moreover have "filter (\<lambda>c. name c = ''init'') (builtInCommands False)
      = [builtIn ''init'' ''Create/update AGENTS.md file'']"
    by (simp add: builtInCommands_def builtIn_def)
  ultimately have "map_of (commandMap (builtInCommands False) cs) ''init''
      = Some (builtIn ''init'' ''Create/update AGENTS.md file'')"
    by (simp add: commandMap_lookup)
  then have "(''init'', builtIn ''init'' ''Create/update AGENTS.md file'')
      \<in> set (commandMap (builtInCommands False) cs)"
    by (rule map_of_SomeD)
  then show ?thesis
    by (force simp: allCommands_def map_values_def)
qed

lemma distinct_insert_sorted:
  "distinct (insert_sorted cmp x xs) = (x \<notin> set xs \<and> distinct xs)"
  by (induction xs) (auto simp: set_insert_sorted)

lemma distinct_array_sort: "distinct (array_sort cmp xs) = distinct xs"
  by (induction xs)
    (simp_all add: array_sort_def distinct_insert_sorted set_array_sort [unfolded array_sort_def])

lemma distinct_visible: "distinct (visibleCommands listCommands q st)"
proof (cases listCommands)
  case (Inl e)
  have "distinct (builtInCommands (hasMessagesInCurrentSession st))"
    using distinct_builtInCommands [of "hasMessagesInCurrentSession st"] by (simp add: distinct_map)
  with Inl show ?thesis
    by (simp add: visibleCommands_def loadCommands_fallback)
next
  case (Inr api)
  have "distinct (allCommands (builtInCommands (hasMessagesInCurrentSession st)) (customCommands api))"
    using allCommands_distinct [of "builtInCommands (hasMessagesInCurrentSession st)" "customCommands api"]
    by (simp add: distinct_map)
  with Inr show ?thesis
    by (simp add: visibleCommands_def loadCommands_def loadCommands_try_def distinct_array_sort
        filtered_eq)
qed

lemma singleton_list: "distinct xs \<Longrightarrow> set xs = {x} \<Longrightarrow> xs = [x]"
proof (cases xs)
  case Nil
  assume "set xs = {x}"
  with Nil show ?thesis by simp
next
  case (Cons y ys)
  assume d: "distinct xs" and s: "set xs = {x}"
  from s Cons have y: "y = x" by auto
  from d Cons have "y \<notin> set ys" by simp
  with s Cons y have "ys = []" by (cases ys) auto
  with Cons y show ?thesis by simp
qed

lemma init_visible:
  assumes ns: "currentSessionId st = None"
    and cat: "case listCommands of Inl e \<Rightarrow> True | Inr api \<Rightarrow> ''init'' \<notin> set (map cmd_name api)"
    and q: "q = [] \<or> matchesQuery q (builtIn ''init'' ''Create/update AGENTS.md file'')"
  shows "builtIn ''init'' ''Create/update AGENTS.md file'' \<in> set (visibleCommands listCommands q st)"
proof -
  have nm: "\<not> hasMessagesInCurrentSession st"
    using ns by (simp add: hasMessagesInCurrentSession_def)
  then have av: "available st (builtIn ''init'' ''Create/update AGENTS.md file'')"
    by (simp add: available_init)
  show ?thesis
  proof (cases listCommands)
    case (Inl e)
    with nm av q show ?thesis
      by (auto simp: visibleCommands_def loadCommands_fallback init_in)
  next
    case (Inr api)
    with cat have "''init'' \<notin> set (map name (customCommands api))"
      by (simp add: customCommands_def comp_def name_toCustom)
    then have "builtIn ''init'' ''Create/update AGENTS.md file''
        \<in> set (allCommands (builtInCommands False) (customCommands api))"
      by (rule builtIn_init_kept)
    with Inr nm av q show ?thesis
      by (auto simp: visibleCommands_def loadCommands_def loadCommands_try_def set_array_sort
          filtered_eq)
  qed
qed

lemma name_builtIn: "name (builtIn n d) = n"
  by (simp add: builtIn_def)

lemma builtIn_init_or_other:
  "c \<in> set (builtInCommands hasM) \<Longrightarrow>
   c = builtIn ''init'' ''Create/update AGENTS.md file'' \<or>
   name c \<in> {''summarize'', ''revert'', ''unrevert'', ''abort'', ''undo'', ''redo'', ''edit'',
              ''clear'', ''compact''}"
  by (cases hasM) (auto simp: builtInCommands_def name_builtIn)

lemma builtIn_named_init:
  "c \<in> set (builtInCommands hasM) \<Longrightarrow> name c = ''init'' \<Longrightarrow>
   c = builtIn ''init'' ''Create/update AGENTS.md file''"
  using builtIn_init_or_other [of c hasM] by auto

lemma dynamic_init_visible:
  assumes ns: "currentSessionId st = None" and a: "a \<in> set api" and n: "cmd_name a = ''init''"
  shows "''init'' \<in> set (map name (visibleCommands (Inr api) [] st))"
proof -
  let ?bs = "builtInCommands (hasMessagesInCurrentSession st)"
  let ?e = "last (filter (\<lambda>c. name c = ''init'') (customCommands api))"
  have nm: "\<not> hasMessagesInCurrentSession st"
    using ns by (simp add: hasMessagesInCurrentSession_def)
  from a have mem: "toCustom a \<in> set (customCommands api)"
    by (simp add: customCommands_def)
  from n have nt: "name (toCustom a) = ''init''" by (simp add: name_toCustom)
  have one: "filter (\<lambda>c. name c = ''init'') (allCommands ?bs (customCommands api)) = [?e]"
    using allCommands_custom_entry [OF mem, of ?bs] nt by simp
  then have "?e \<in> set (filter (\<lambda>c. name c = ''init'') (allCommands ?bs (customCommands api)))"
    by simp
  then have e_in: "?e \<in> set (allCommands ?bs (customCommands api))" and e_nm: "name ?e = ''init''"
    by simp_all
  from mem nt have "filter (\<lambda>c. name c = ''init'') (customCommands api) \<noteq> []"
    by (auto simp: filter_empty_conv)
  then have "?e \<in> set (filter (\<lambda>c. name c = ''init'') (customCommands api))"
    by (rule last_in_set)
  then have "?e \<in> set (customCommands api)" by simp
  then have "isBuiltIn ?e = Some False"
    by (rule customCommands_not_builtIn)
  then have "available st ?e"
    by (simp add: available_def isCommandAvailable_def)
  with e_in nm have "?e \<in> set (visibleCommands (Inr api) [] st)"
    by (simp add: visibleCommands_def loadCommands_def loadCommands_try_def set_array_sort
        filtered_eq)
  then show ?thesis using e_nm by (rule key_in_map)
qed


text \<open>
  Claim C10, as stated, fails: with no active session \<open>abort\<close> reads the activity phase
  stored under the empty string (\<open>currentSessionId || ''\<close>), so a store that holds
  \<open>busy\<close> there makes \<open>abort\<close> available and visible; and \<open>init\<close>, like every
  command, is listed only when it passes the query.
\<close>

theorem no_session_counterexample:
  "currentSessionId st_none_busy = None \<and>
   isCommandAvailable (hasMessagesInCurrentSession st_none_busy) (currentSessionId st_none_busy)
      st_none_busy (builtIn ''abort'' ''Interrupt current operation'') \<and>
   builtIn ''abort'' ''Interrupt current operation''
      \<in> set (visibleCommands (Inl (Error ''Failed to fetch'')) [] st_none_busy) \<and>
   visibleCommands (Inr []) ''zzz'' st_none = []"
  by code_simp

lemma st_other_no_session:
  "currentSessionId st_other = None \<and>
   (case sessionActivityPhase st_other of None \<Rightarrow> True | Some phases \<Rightarrow> phases [] \<noteq> Some ''busy'')"
  by (simp add: st_other_def)

lemma api_deploy_no_init: "''init'' \<notin> set (map cmd_name api_deploy)"
  by (simp add: api_deploy_def)

text \<open>
  Claim C10, amended. With no active session, and no \<open>busy\<close> phase stored under the
  empty string, \<open>init\<close> is available and each of \<open>summarize\<close>, \<open>revert\<close>, \<open>undo\<close>,
  \<open>unrevert\<close>, \<open>redo\<close>, \<open>abort\<close>, \<open>edit\<close>, \<open>clear\<close>, \<open>compact\<close> is not. Whatever
  the fetch returns and whatever the query, the only built-in entry the visible list can
  hold is \<open>init\<close>. With an empty query an entry named \<open>init\<close> is listed after every
  fetch result, failed or not; and when no dynamic command is called \<open>init\<close> and the
  query is empty or matches it, the built-in entries of the list are \<open>init\<close> alone.
\<close>

theorem no_session_only_init:
  "currentSessionId st = None \<and>
   (case sessionActivityPhase st of None \<Rightarrow> True | Some phases \<Rightarrow> phases [] \<noteq> Some ''busy'') \<longrightarrow>
     isCommandAvailable (hasMessagesInCurrentSession st) (currentSessionId st) st
        (builtIn ''init'' d) \<and>
     (n \<in> {''summarize'', ''revert'', ''undo'', ''unrevert'', ''redo'', ''abort'', ''edit'',
            ''clear'', ''compact''} \<longrightarrow>
        \<not> isCommandAvailable (hasMessagesInCurrentSession st) (currentSessionId st) st
            (builtIn n d')) \<and>
     (c \<in> set (visibleCommands listCommands q st) \<and> isBuiltIn c = Some True \<longrightarrow>
        name c = ''init'') \<and>
     ''init'' \<in> set (map name (visibleCommands listCommands [] st)) \<and>
     ((case listCommands of Inl err \<Rightarrow> True | Inr api \<Rightarrow> ''init'' \<notin> set (map cmd_name api)) \<and>
      (q = [] \<or> matchesQuery q (builtIn ''init'' ''Create/update AGENTS.md file'')) \<longrightarrow>
        filter (\<lambda>c. isBuiltIn c = Some True) (visibleCommands listCommands q st)
          = [builtIn ''init'' ''Create/update AGENTS.md file''])"
proof (intro impI conjI)
  assume h: "currentSessionId st = None \<and>
   (case sessionActivityPhase st of None \<Rightarrow> True | Some phases \<Rightarrow> phases [] \<noteq> Some ''busy'')"
  then have ns: "currentSessionId st = None"
    and nb: "case sessionActivityPhase st of None \<Rightarrow> True | Some phases \<Rightarrow> phases [] \<noteq> Some ''busy''"
    by simp_all
  show "isCommandAvailable (hasMessagesInCurrentSession st) (currentSessionId st) st (builtIn ''init'' d)"
    unfolding builtIn_def using ns by (rule no_session_init)
  show "\<not> isCommandAvailable (hasMessagesInCurrentSession st) (currentSessionId st) st (builtIn n d')"
    if "n \<in> {''summarize'', ''revert'', ''undo'', ''unrevert'', ''redo'', ''abort'', ''edit'',
            ''clear'', ''compact''}"
    unfolding builtIn_def using ns nb that by (rule no_session_gated)
  have gated: "\<not> available st b"
    if "b \<in> set (builtInCommands (hasMessagesInCurrentSession st))" and "name b \<noteq> ''init''" for b
  proof -
    from that(1) obtain n' d' where b: "b = builtIn n' d'"
      by (auto simp: builtInCommands_def split: if_splits)
    with that have "n' \<in> {''summarize'', ''revert'', ''undo'', ''unrevert'', ''redo'', ''abort'',
        ''edit'', ''clear'', ''compact''}"
      using builtInCommands_names [OF that(1)] by (auto simp: builtIn_def)
    with ns nb show ?thesis
      unfolding b available_def builtIn_def by (rule no_session_gated)
  qed
  show only: "name c = ''init''"
    if "c \<in> set (visibleCommands listCommands q st) \<and> isBuiltIn c = Some True" for c
  proof (rule ccontr)
    assume "name c \<noteq> ''init''"
    moreover from that visible_subset [of c listCommands q st]
    have "available st c" and "c \<in> set (builtInCommands (hasMessagesInCurrentSession st))"
      by auto
    ultimately show False using gated by blast
  qed
  show "''init'' \<in> set (map name (visibleCommands listCommands [] st))"
  proof (cases "case listCommands of Inl err \<Rightarrow> True | Inr api \<Rightarrow> ''init'' \<notin> set (map cmd_name api)")
    case True
    with ns have "builtIn ''init'' ''Create/update AGENTS.md file''
        \<in> set (visibleCommands listCommands [] st)"
      by (intro init_visible) simp_all
    then show ?thesis by (rule key_in_map) (rule name_builtIn)
  next
    case False
    then obtain api a where l: "listCommands = Inr api" and a: "a \<in> set api" "cmd_name a = ''init''"
      by (cases listCommands) auto
    show ?thesis unfolding l using ns a by (rule dynamic_init_visible)
  qed
  show "filter (\<lambda>c. isBuiltIn c = Some True) (visibleCommands listCommands q st)
          = [builtIn ''init'' ''Create/update AGENTS.md file'']"
    if v: "(case listCommands of Inl err \<Rightarrow> True | Inr api \<Rightarrow> ''init'' \<notin> set (map cmd_name api)) \<and>
      (q = [] \<or> matchesQuery q (builtIn ''init'' ''Create/update AGENTS.md file''))"
  proof (rule singleton_list)
    show "distinct (filter (\<lambda>c. isBuiltIn c = Some True) (visibleCommands listCommands q st))"
      by (simp add: distinct_visible)
    have in1: "builtIn ''init'' ''Create/update AGENTS.md file''
        \<in> set (visibleCommands listCommands q st)"
      using ns v by (intro init_visible) simp_all
    have "x = builtIn ''init'' ''Create/update AGENTS.md file''"
      if x: "x \<in> set (visibleCommands listCommands q st)" "isBuiltIn x = Some True" for x
    proof -
      from x have "name x = ''init''" using only [of x] by simp
      moreover from x visible_subset [of x listCommands q st]
      have "x \<in> set (builtInCommands (hasMessagesInCurrentSession st))" by auto
      ultimately show ?thesis by (rule builtIn_named_init [rotated])
    qed
    then have sub: "set (filter (\<lambda>c. isBuiltIn c = Some True) (visibleCommands listCommands q st))
        \<subseteq> {builtIn ''init'' ''Create/update AGENTS.md file''}"
      by auto
    have "isBuiltIn (builtIn ''init'' ''Create/update AGENTS.md file'') = Some True"
      by (simp add: builtIn_def)
    with in1 have "builtIn ''init'' ''Create/update AGENTS.md file''
        \<in> set (filter (\<lambda>c. isBuiltIn c = Some True) (visibleCommands listCommands q st))"
      by simp
    with sub show "set (filter (\<lambda>c. isBuiltIn c = Some True) (visibleCommands listCommands q st))
        = {builtIn ''init'' ''Create/update AGENTS.md file''}"
      by blast
  qed
qed

theorem no_session_only_init_witness:
  "isCommandAvailable (hasMessagesInCurrentSession st_other) (currentSessionId st_other) st_other
        (builtIn ''init'' ''Create/update AGENTS.md file'') \<and>
   \<not> isCommandAvailable (hasMessagesInCurrentSession st_other) (currentSessionId st_other) st_other
        (builtIn ''abort'' ''Interrupt current operation'') \<and>
   ''init'' \<in> set (map name (visibleCommands (Inr api_deploy) [] st_other)) \<and>
   filter (\<lambda>c. isBuiltIn c = Some True) (visibleCommands (Inr api_deploy) [] st_other)
     = [builtIn ''init'' ''Create/update AGENTS.md file'']"
  using no_session_only_init [of st_other "''Create/update AGENTS.md file''" "''abort''"
      "''Interrupt current operation''" "builtIn ''init'' ''Create/update AGENTS.md file''"
      "Inr api_deploy" "[]"]
    st_other_no_session api_deploy_no_init
  by simp

end
